theory Spec2Isabelle
  imports Complex_Main "HOL-Library.Multiset" "HOL-Library.Product_Lexorder"
    "HOL-Library.List_Lexorder" "HOL-Library.Char_ord"
begin

section \<open>GatingResults: the report of one gated sample\<close>

text \<open>
  The development embeds \<^verbatim>\<open>flowkit/_models/gating_results.py\<close>: the construction of a
  \<^verbatim>\<open>GatingResults\<close> object from the raw results of a gating strategy, and its four
  query methods. The pandas DataFrame is a list of row records, dictionaries are
  association lists (the raw results, whose iteration order the construction follows) or
  maps (the gate lookup table), exceptions are the left summand of a sum type.
\<close>

subsection \<open>Python values\<close>

text \<open>
  The exceptions the class can raise; the two \<^verbatim>\<open>ValueError\<close>s are kept apart by message.
  \<^verbatim>\<open>AttributeError\<close> is what a method raises when \<^verbatim>\<open>self\<close> is not an object of the class.
\<close>

datatype error =
    KeyError
  | IndexError
  | TypeError
  | AttributeError
  | ValueError_ambiguous
  | ValueError_quadrant_parents
  | NotImplementedError

text \<open>
  What a gate path can be at run time: the argument \<^verbatim>\<open>gate_path\<close> of
  \<^verbatim>\<open>get_gate_indices\<close> is \<^verbatim>\<open>None\<close>, a list of gate ids, a string, or a tuple of gate ids;
  the path component of a key of the raw results is one of the hashable ones. Values of
  different Python types are never equal, as the constructors are not.
\<close>

datatype pyval = PNone | PStr string | PList "string list" | PTuple "string list"

text \<open>\<^verbatim>\<open>sep.join(xs)\<close> on a list of strings.\<close>

fun join :: "string \<Rightarrow> string list \<Rightarrow> string" where
  "join sep [] = []"
| "join sep [x] = x"
| "join sep (x # y # ys) = x @ sep @ join sep (y # ys)"

subsection \<open>Records of the raw results and rows of the report\<close>

text \<open>
  The seven entries that a raw result record and a report row share. The percentages are
  floating point numbers that this class only stores and hands back, so their type is a
  parameter.
\<close>

record 'f gate_stats =
  sample :: string
  gate_path :: "string list"
  parent :: "string option"
  gate_type :: string
  count :: int
  absolute_percent :: 'f
  relative_percent :: 'f

text \<open>A raw result record: the shared entries and the membership vector \<^verbatim>\<open>'events'\<close>.\<close>

record 'f outcome = "'f gate_stats" +
  events :: "bool list"

text \<open>The dictionary \<^verbatim>\<open>_get_pd_result_dict\<close> builds, one per future row.\<close>

record 'f pd_dict = "'f gate_stats" +
  gate_id :: string
  quadrant_parent :: "string option"

text \<open>A row of the report: the columns of the dictionary and the added column \<^verbatim>\<open>level\<close>.\<close>

record 'f report_row = "'f pd_dict" +
  level :: nat

text \<open>
  A value of the raw results dictionary is either a record (which has the key
  \<^verbatim>\<open>'events'\<close>), or, for a quadrant gate, a dictionary from sub-gate id to record.
\<close>

datatype 'f raw_result = Simple "'f outcome" | Quad "(string \<times> 'f outcome) list"

type_synonym 'f raw_results = "((string \<times> pyval) \<times> 'f raw_result) list"

type_synonym gate_lut = "string \<rightharpoonup> pyval list"

text \<open>The attributes of a \<^verbatim>\<open>GatingResults\<close> object.\<close>

record 'f gating_results =
  raw_results :: "'f raw_results"
  gate_lut :: gate_lut
  report :: "'f report_row list"
  sample_id :: string

subsection \<open>Construction\<close>

definition get_pd_result_dict :: "'f outcome \<Rightarrow> string \<Rightarrow> 'f pd_dict" where
  "get_pd_result_dict res_dict g =
     \<lparr> sample = sample res_dict,
       gate_path = gate_path res_dict,
       parent = parent res_dict,
       gate_type = gate_type res_dict,
       count = count res_dict,
       absolute_percent = absolute_percent res_dict,
       relative_percent = relative_percent res_dict,
       gate_id = g,
       quadrant_parent = None \<rparr>"

text \<open>The keys \<^verbatim>\<open>_get_pd_result_dict\<close> reads from its argument, in the order it reads them.\<close>

definition stats_keys :: "string list" where
  "stats_keys = [''sample'', ''gate_path'', ''parent'', ''gate_type'', ''count'',
     ''absolute_percent'', ''relative_percent'']"

text \<open>
  The test \<^verbatim>\<open>'events' in res\<close>. It is what tells a record from a quadrant dictionary, so
  a quadrant dictionary with a sub-gate called \<^verbatim>\<open>events\<close> passes for a record.
\<close>

fun has_events_key :: "'f raw_result \<Rightarrow> bool" where
  "has_events_key (Simple res_dict) = True"
| "has_events_key (Quad subs) = (''events'' \<in> set (map fst subs))"

text \<open>
  Reading \<^verbatim>\<open>res\<close> as a record, in the branch for non-quadrant gates, where
  \<^verbatim>\<open>_get_pd_result_dict\<close> subscripts it by the seven keys. A record has them. On a quadrant
  dictionary the first of the seven that is not a sub-gate id raises \<^verbatim>\<open>KeyError\<close>; when all
  seven are sub-gate ids, the dictionary built for the row holds sub-gate records in its
  columns.
\<close>

datatype 'f reading = Record "'f outcome" | Missing_key | Dictionaries

fun as_record :: "'f raw_result \<Rightarrow> 'f reading" where
  "as_record (Simple res_dict) = Record res_dict"
| "as_record (Quad subs) =
     (if set stats_keys \<subseteq> set (map fst subs) then Dictionaries else Missing_key)"

text \<open>
  The update of the lookup table, the same four lines in both branches of the loop:
  a new id gets the one-element list, a known id has the path appended.
\<close>

definition lut_add :: "gate_lut \<Rightarrow> string \<Rightarrow> pyval \<Rightarrow> gate_lut" where
  "lut_add lut g p =
     (case lut g of None \<Rightarrow> lut(g \<mapsto> [p]) | Some ps \<Rightarrow> lut(g \<mapsto> ps @ [p]))"

text \<open>The inner loop over the sub-gates of a quadrant gate.\<close>

fun process_sub_gates ::
  "string \<Rightarrow> pyval \<Rightarrow> (string \<times> 'f outcome) list \<Rightarrow> 'f pd_dict list \<times> gate_lut
     \<Rightarrow> 'f pd_dict list \<times> gate_lut" where
  "process_sub_gates g_id g_path [] st = st"
| "process_sub_gates g_id g_path ((sub_g_id, sub_res) # rest) (pd_list, lut) =
     (let pd_dict = get_pd_result_dict sub_res sub_g_id;
          pd_dict = pd_dict\<lparr>quadrant_parent := Some g_id\<rparr>
      in process_sub_gates g_id g_path rest (pd_list @ [pd_dict], lut_add lut sub_g_id g_path))"

text \<open>
  The outer loop over the items of the raw results. A record always has the key
  \<^verbatim>\<open>'events'\<close>, so the quadrant branch never meets one. A row that holds sub-gate records
  in its columns does not stop the loop, but no report comes of it: the sort of the
  report hashes the values of the column \<^verbatim>\<open>sample\<close>, and a dictionary cannot be hashed, so
  the construction ends in a \<^verbatim>\<open>TypeError\<close> unless a later item has raised before.
\<close>

fun process_items ::
  "'f raw_results \<Rightarrow> 'f pd_dict list \<times> gate_lut \<Rightarrow> error + 'f pd_dict list \<times> gate_lut" where
  "process_items [] st = Inr st"
| "process_items (((g_id, g_path), res) # rest) (pd_list, lut) =
     (if \<not> has_events_key res then
        (case res of
           Quad subs \<Rightarrow> process_items rest (process_sub_gates g_id g_path subs (pd_list, lut))
         | Simple res_dict \<Rightarrow> Inl TypeError)
      else
        (case as_record res of
           Record res_dict \<Rightarrow>
             process_items rest
               (pd_list @ [get_pd_result_dict res_dict g_id], lut_add lut g_id g_path)
         | Missing_key \<Rightarrow> Inl KeyError
         | Dictionaries \<Rightarrow>
             (case process_items rest (pd_list, lut_add lut g_id g_path) of
                Inl e \<Rightarrow> Inl e
              | Inr st \<Rightarrow> Inl TypeError)))"

text \<open>\<^verbatim>\<open>df['level'] = df.gate_path.map(len)\<close>, row by row.\<close>

definition add_level :: "'f pd_dict \<Rightarrow> 'f report_row" where
  "add_level d =
     \<lparr> sample = sample d,
       gate_path = gate_path d,
       parent = parent d,
       gate_type = gate_type d,
       count = count d,
       absolute_percent = absolute_percent d,
       relative_percent = relative_percent d,
       gate_id = gate_id d,
       quadrant_parent = quadrant_parent d,
       level = length (gate_path d) \<rparr>"

text \<open>
  \<^verbatim>\<open>df.sort_values(['sample', 'level', 'gate_id'])\<close>: ascending, lexicographic on the three
  columns, rows with equal keys left in their order.
\<close>

definition sort_values :: "'f report_row list \<Rightarrow> 'f report_row list" where
  "sort_values df = sort_key (\<lambda>r. (sample r, level r, gate_id r)) df"

definition process_results :: "'f raw_results \<Rightarrow> error + 'f report_row list \<times> gate_lut" where
  "process_results raw =
     (case process_items raw ([], Map.empty) of
        Inl e \<Rightarrow> Inl e
      | Inr (pd_list, lut) \<Rightarrow> Inr (sort_values (map add_level pd_list), lut))"

text \<open>The constructor \<^verbatim>\<open>GatingResults(results_dict, sample_id)\<close>.\<close>

definition GatingResults :: "'f raw_results \<Rightarrow> string \<Rightarrow> error + 'f gating_results" where
  "GatingResults results_dict sid =
     (case process_results results_dict of
        Inl e \<Rightarrow> Inl e
      | Inr (df, lut) \<Rightarrow>
          Inr \<lparr> raw_results = results_dict, gate_lut = lut, report = df, sample_id = sid \<rparr>)"

subsection \<open>Queries\<close>

text \<open>
  What \<^verbatim>\<open>get_gate_indices\<close> hands back: the membership vector, or, when the value found
  under the key is a quadrant dictionary with a sub-gate called \<^verbatim>\<open>events\<close>, that sub-gate's
  record.
\<close>

datatype 'f indices = Vec "bool list" | Rec "'f outcome"

text \<open>The rows of the report for this sample and this gate id.\<close>

definition gate_rows :: "'f gating_results \<Rightarrow> string \<Rightarrow> 'f report_row list" where
  "gate_rows self g = filter (\<lambda>r. sample r = sample_id self \<and> gate_id r = g) (report self)"

text \<open>\<^verbatim>\<open>self._raw_results[gate_id, gate_path]['events']\<close>.\<close>

definition events_at :: "'f raw_results \<Rightarrow> string \<Rightarrow> pyval \<Rightarrow> error + 'f indices" where
  "events_at raw g p =
     (case map_of raw (g, p) of
        None \<Rightarrow> Inl KeyError
      | Some (Simple res_dict) \<Rightarrow> Inr (Vec (events res_dict))
      | Some (Quad subs) \<Rightarrow>
          (case map_of subs ''events'' of None \<Rightarrow> Inl KeyError | Some sub_res \<Rightarrow> Inr (Rec sub_res)))"

text \<open>
  \<^verbatim>\<open>self._raw_results[quad_parent, gate_path][gate_id]['events']\<close>. When the value under
  the key is a record, not a quadrant dictionary, subscripting it by the gate id raises
  \<^verbatim>\<open>KeyError\<close> unless the id is one of the record's eight keys. Then the entry found is
  subscripted by \<^verbatim>\<open>'events'\<close>, which fails: with \<^verbatim>\<open>TypeError\<close> on the sample, the gate
  path, the parent and the gate type (strings, a sequence, \<^verbatim>\<open>None\<close>), with \<^verbatim>\<open>IndexError\<close>
  on the count, the two percentages and the membership vector (numpy numbers and a numpy
  array).
\<close>

definition quad_events_at ::
  "'f raw_results \<Rightarrow> string \<Rightarrow> pyval \<Rightarrow> string \<Rightarrow> error + 'f indices" where
  "quad_events_at raw quad_parent p g =
     (case map_of raw (quad_parent, p) of
        None \<Rightarrow> Inl KeyError
      | Some (Quad subs) \<Rightarrow>
          (case map_of subs g of None \<Rightarrow> Inl KeyError | Some sub_res \<Rightarrow> Inr (Vec (events sub_res)))
      | Some (Simple res_dict) \<Rightarrow>
          (if g \<in> set [''sample'', ''gate_path'', ''parent'', ''gate_type''] then Inl TypeError
           else if g \<in> set [''count'', ''absolute_percent'', ''relative_percent'', ''events'']
             then Inl IndexError
           else Inl KeyError))"

text \<open>
  Lines 93 to 100: which path the lookup uses. With more than one path for the id the
  caller's path is required, and a list is joined with \<^verbatim>\<open>/\<close>; with one path the
  caller's path is dropped for the stored one.
\<close>

definition resolve_path :: "pyval list \<Rightarrow> pyval \<Rightarrow> error + pyval" where
  "resolve_path gate_paths path =
     (if length gate_paths > 1 then
        (case path of
           PNone \<Rightarrow> Inl ValueError_ambiguous
         | PList ids \<Rightarrow> Inr (PStr (join ''/'' ids))
         | _ \<Rightarrow> Inr path)
      else
        (case gate_paths of [] \<Rightarrow> Inl IndexError | p # _ \<Rightarrow> Inr p))"

text \<open>
  The set \<^verbatim>\<open>quad_parent_values\<close> is the list of the distinct values of the column. The
  three branches of the source are: the one value is \<^verbatim>\<open>None\<close>; there is one value and
  it is not \<^verbatim>\<open>None\<close> (\<^verbatim>\<open>pop\<close> takes it out); anything else, also no value at all.
\<close>

definition get_gate_indices ::
  "'f gating_results \<Rightarrow> string \<Rightarrow> pyval \<Rightarrow> error + 'f indices" where
  "get_gate_indices self g path =
     (case gate_lut self g of
        None \<Rightarrow> Inl KeyError
      | Some gate_paths \<Rightarrow>
          (case resolve_path gate_paths path of
             Inl e \<Rightarrow> Inl e
           | Inr p \<Rightarrow>
               (let gate_data = gate_rows self g;
                    quad_parent_values = remdups (map quadrant_parent gate_data)
                in case quad_parent_values of
                     [None] \<Rightarrow> events_at (raw_results self) g p
                   | [Some quad_parent] \<Rightarrow> quad_events_at (raw_results self) quad_parent p g
                   | _ \<Rightarrow> Inl ValueError_quadrant_parents)))"

text \<open>\<^verbatim>\<open>results[column].values[0]\<close> after the check for more than one row.\<close>

definition first_value :: "'f report_row list \<Rightarrow> ('f report_row \<Rightarrow> 'a) \<Rightarrow> error + 'a" where
  "first_value results column =
     (if length results > 1 then Inl NotImplementedError
      else (case results of [] \<Rightarrow> Inl IndexError | r # _ \<Rightarrow> Inr (column r)))"

definition get_gate_count :: "'f gating_results \<Rightarrow> string \<Rightarrow> error + int" where
  "get_gate_count self g = first_value (gate_rows self g) count"

definition get_gate_absolute_percent :: "'f gating_results \<Rightarrow> string \<Rightarrow> error + 'f" where
  "get_gate_absolute_percent self g = first_value (gate_rows self g) absolute_percent"

definition get_gate_relative_percent :: "'f gating_results \<Rightarrow> string \<Rightarrow> error + 'f" where
  "get_gate_relative_percent self g = first_value (gate_rows self g) relative_percent"

subsection \<open>The raw results as the construction reads them\<close>

text \<open>The paths the lookup table holds for an id, none for an id it does not hold.\<close>

definition paths_of :: "gate_lut \<Rightarrow> string \<Rightarrow> pyval list" where
  "paths_of lut g = (case lut g of None \<Rightarrow> [] | Some ps \<Rightarrow> ps)"

text \<open>The loop never stores an empty list of paths.\<close>

definition lut_filled :: "gate_lut \<Rightarrow> bool" where
  "lut_filled lut = (\<forall>g. lut g \<noteq> Some [])"

text \<open>
  An occurrence of a gate id in the raw results: the id of the quadrant gate when the id
  names one of its quadrants (\<open>None\<close> when it names a gate of its own), the path of the
  key, and the record.
\<close>

type_synonym 'f occurrence = "string option \<times> pyval \<times> 'f outcome"

fun entry_occurrences ::
  "string \<Rightarrow> (string \<times> pyval) \<times> 'f raw_result \<Rightarrow> 'f occurrence list" where
  "entry_occurrences g ((g_id, g_path), Simple res_dict) =
     (if g_id = g then [(None, g_path, res_dict)] else [])"
| "entry_occurrences g ((g_id, g_path), Quad subs) =
     map (\<lambda>(s, sub_res). (Some g_id, g_path, sub_res)) (filter (\<lambda>(s, sub_res). s = g) subs)"

definition occurrences :: "'f raw_results \<Rightarrow> string \<Rightarrow> 'f occurrence list" where
  "occurrences raw g = concat (map (entry_occurrences g) raw)"

text \<open>
  The flattening as the specification words it: a record that is not a quadrant
  dictionary gives one row, with no quadrant parent; a quadrant dictionary gives one row
  for each of its sub-gate ids, with the id of the quadrant gate as quadrant parent; the
  level of a row is the length of its gate path.
\<close>

definition flat_row :: "string option \<Rightarrow> string \<Rightarrow> 'f outcome \<Rightarrow> 'f report_row" where
  "flat_row qp g res_dict =
     \<lparr> sample = sample res_dict,
       gate_path = gate_path res_dict,
       parent = parent res_dict,
       gate_type = gate_type res_dict,
       count = count res_dict,
       absolute_percent = absolute_percent res_dict,
       relative_percent = relative_percent res_dict,
       gate_id = g,
       quadrant_parent = qp,
       level = length (gate_path res_dict) \<rparr>"

fun flat_rows :: "(string \<times> pyval) \<times> 'f raw_result \<Rightarrow> 'f report_row list" where
  "flat_rows ((g_id, g_path), Simple res_dict) = [flat_row None g_id res_dict]"
| "flat_rows ((g_id, g_path), Quad subs) =
     map (\<lambda>(sub_g_id, sub_res). flat_row (Some g_id) sub_g_id sub_res) subs"

definition occurrence_row :: "string \<Rightarrow> 'f occurrence \<Rightarrow> 'f report_row" where
  "occurrence_row g occ = flat_row (fst occ) g (snd (snd occ))"

text \<open>
  The test for the key \<^verbatim>\<open>'events'\<close> tells the two kinds of value apart: every value that
  has the key is a record, that is, no quadrant gate has a quadrant called \<^verbatim>\<open>events\<close>.
\<close>

fun well_shaped :: "'f raw_result \<Rightarrow> bool" where
  "well_shaped (Simple res_dict) = True"
| "well_shaped (Quad subs) = (''events'' \<notin> set (map fst subs))"

definition shapes_ok :: "'f raw_results \<Rightarrow> bool" where
  "shapes_ok raw = list_all (\<lambda>(k, res). well_shaped res) raw"

text \<open>A property of every record of the raw results, those inside quadrant dictionaries too.\<close>

definition all_records :: "('f outcome \<Rightarrow> bool) \<Rightarrow> 'f raw_results \<Rightarrow> bool" where
  "all_records P raw =
     list_all (\<lambda>(k, res). case res of
         Simple res_dict \<Rightarrow> P res_dict
       | Quad subs \<Rightarrow> list_all (\<lambda>(s, sub_res). P sub_res) subs) raw"

text \<open>
  The raw results are those of the sample the object is built for: the queries select
  the rows of the report by \<^verbatim>\<open>sample_id\<close>.
\<close>

definition one_sample :: "string \<Rightarrow> 'f raw_results \<Rightarrow> bool" where
  "one_sample sid raw = all_records (\<lambda>res_dict. sample res_dict = sid) raw"

text \<open>
  The raw results are a Python dictionary, and so is every quadrant dictionary in them:
  no key occurs twice.
\<close>

definition dict_keys :: "'f raw_results \<Rightarrow> bool" where
  "dict_keys raw =
     (distinct (map fst raw) \<and>
      list_all (\<lambda>(k, res). case res of
         Simple res_dict \<Rightarrow> True
       | Quad subs \<Rightarrow> distinct (map fst subs)) raw)"

text \<open>
  The record stored for a gate id under a path: at (gate id, path) for a gate of its
  own, inside the quadrant dictionary at (quadrant gate id, path) for a quadrant.
\<close>

definition stored_record ::
  "'f raw_results \<Rightarrow> string option \<Rightarrow> string \<Rightarrow> pyval \<Rightarrow> 'f outcome option" where
  "stored_record raw qp g p =
     (case qp of
        None \<Rightarrow> (case map_of raw (g, p) of Some (Simple res_dict) \<Rightarrow> Some res_dict | _ \<Rightarrow> None)
      | Some q \<Rightarrow> (case map_of raw (q, p) of Some (Quad subs) \<Rightarrow> map_of subs g | _ \<Rightarrow> None))"

text \<open>\<^verbatim>\<open>sum\<close> of a boolean vector: the number of its true entries.\<close>

definition vec_sum :: "bool list \<Rightarrow> int" where
  "vec_sum v = sum_list (map of_bool v)"

subsection \<open>The evaluation engine\<close>

text \<open>
  Modelled from the spec: the gating strategy that evaluates the gates of a sample and
  produces the raw results is not among the sources. Its contract (section 4.3, step 4)
  is that every record it emits has \<^verbatim>\<open>count = sum(mask)\<close>, the mask being the record's
  membership vector.
\<close>

definition counted :: "'f raw_results \<Rightarrow> bool" where
  "counted raw = all_records (\<lambda>res_dict. count res_dict = vec_sum (events res_dict)) raw"







subsection \<open>The query methods as procedures on a heap\<close>

text \<open>
  To say what a call does to the object, the methods are written once more as procedures
  on a heap of Python objects: the \<^verbatim>\<open>GatingResults\<close> object lives at an address, a call
  reads it there each time it accesses an attribute of \<^verbatim>\<open>self\<close>, the objects that a call
  builds (the frame that boolean indexing of the report returns, the set of quadrant
  parents) are allocated at fresh addresses, and \<^verbatim>\<open>pop\<close> changes the set it is called on.
  The temporaries that a call only reads (the boolean masks, the list that \<^verbatim>\<open>to_list\<close>
  returns, the joined path string) are values. A procedure takes the heap and returns
  what the call returns or raises, and the heap after the call.
\<close>

datatype 'f cell =
    Object "'f gating_results"
  | Frame "'f report_row list"
  | PySet "string option list"

record 'f heap =
  cells :: "nat \<rightharpoonup> 'f cell"
  next_free :: nat

type_synonym ('f, 'a) proc = "'f heap \<Rightarrow> (error + 'a) \<times> 'f heap"







text \<open>
  \<^verbatim>\<open>s.pop()\<close>: takes an element out of the set object at the address and returns it;
  \<^verbatim>\<open>KeyError\<close> on the empty set. A frame has a \<^verbatim>\<open>pop\<close> that wants an argument, the
  \<^verbatim>\<open>GatingResults\<close> object has none.
\<close>

definition pop :: "nat \<Rightarrow> ('f, string option) proc" where
  "pop a h =
     (case cells h a of
        Some (PySet (x # xs)) \<Rightarrow> (Inr x, h\<lparr>cells := (cells h)(a \<mapsto> PySet xs)\<rparr>)
      | Some (PySet []) \<Rightarrow> (Inl KeyError, h)
      | Some (Frame rows) \<Rightarrow> (Inl TypeError, h)
      | _ \<Rightarrow> (Inl AttributeError, h))"








definition answered :: "('a \<Rightarrow> 'b) \<Rightarrow> ('f, 'a) proc \<Rightarrow> ('f, 'b) proc" where
  "answered tag m h = (case m h of (r, h') \<Rightarrow> (map_sum id tag r, h'))"



text \<open>
  What a caller that holds the heap \<open>h\<close> can still see in the heap \<open>h'\<close>: nothing that
  \<open>h\<close> had allocated has changed.
\<close>

definition preserved :: "'f heap \<Rightarrow> 'f heap \<Rightarrow> bool" where
  "preserved h h' =
     (next_free h \<le> next_free h' \<and> (\<forall>a. a < next_free h \<longrightarrow> cells h' a = cells h a))"


subsection \<open>Three small raw results\<close>

text \<open>
  Four events; gates \<^verbatim>\<open>A\<close> and \<^verbatim>\<open>B\<close> under the root, gate \<^verbatim>\<open>C\<close> reused under both, and the
  quadrant gate \<^verbatim>\<open>Q\<close> with its quadrants \<^verbatim>\<open>Q1\<close> and \<^verbatim>\<open>Q2\<close> reused under both.
\<close>

definition rec_A :: "real outcome" where
  "rec_A = \<lparr> sample = ''s1'', gate_path = [''root''], parent = None,
     gate_type = ''RectangleGate'', count = 2, absolute_percent = 50, relative_percent = 50,
     events = [True, True, False, False] \<rparr>"

definition rec_B :: "real outcome" where
  "rec_B = \<lparr> sample = ''s1'', gate_path = [''root''], parent = None,
     gate_type = ''RectangleGate'', count = 4, absolute_percent = 100, relative_percent = 100,
     events = [True, True, True, True] \<rparr>"

definition rec_CA :: "real outcome" where
  "rec_CA = \<lparr> sample = ''s1'', gate_path = [''root'', ''A''], parent = Some ''A'',
     gate_type = ''PolygonGate'', count = 1, absolute_percent = 25, relative_percent = 50,
     events = [True, False, False, False] \<rparr>"

definition rec_CB :: "real outcome" where
  "rec_CB = \<lparr> sample = ''s1'', gate_path = [''root'', ''B''], parent = Some ''B'',
     gate_type = ''PolygonGate'', count = 2, absolute_percent = 50, relative_percent = 50,
     events = [True, False, True, False] \<rparr>"

definition rec_Q1 :: "real outcome" where
  "rec_Q1 = \<lparr> sample = ''s1'', gate_path = [''root'', ''A''], parent = Some ''A'',
     gate_type = ''QuadrantGate'', count = 1, absolute_percent = 25, relative_percent = 50,
     events = [True, False, False, False] \<rparr>"

definition rec_Q2 :: "real outcome" where
  "rec_Q2 = \<lparr> sample = ''s1'', gate_path = [''root'', ''A''], parent = Some ''A'',
     gate_type = ''QuadrantGate'', count = 1, absolute_percent = 25, relative_percent = 50,
     events = [False, True, False, False] \<rparr>"

definition rec_Q1B :: "real outcome" where
  "rec_Q1B = \<lparr> sample = ''s1'', gate_path = [''root'', ''B''], parent = Some ''B'',
     gate_type = ''QuadrantGate'', count = 3, absolute_percent = 75, relative_percent = 75,
     events = [True, False, True, True] \<rparr>"

definition rec_Q2B :: "real outcome" where
  "rec_Q2B = \<lparr> sample = ''s1'', gate_path = [''root'', ''B''], parent = Some ''B'',
     gate_type = ''QuadrantGate'', count = 1, absolute_percent = 25, relative_percent = 25,
     events = [False, True, False, False] \<rparr>"

definition reused_raw :: "real raw_results" where
  "reused_raw =
     [((''A'', PStr ''root''), Simple rec_A),
      ((''B'', PStr ''root''), Simple rec_B),
      ((''C'', PStr ''root/A''), Simple rec_CA),
      ((''C'', PStr ''root/B''), Simple rec_CB),
      ((''Q'', PStr ''root/A''), Quad [(''Q1'', rec_Q1), (''Q2'', rec_Q2)]),
      ((''Q'', PStr ''root/B''), Quad [(''Q1'', rec_Q1B), (''Q2'', rec_Q2B)])]"

text \<open>
  The id \<^verbatim>\<open>C\<close> names a gate under the root and also a quadrant of the quadrant gate
  \<^verbatim>\<open>Q\<close> under \<^verbatim>\<open>A\<close>.
\<close>

definition clash_raw :: "real raw_results" where
  "clash_raw =
     [((''A'', PStr ''root''), Simple rec_A),
      ((''C'', PStr ''root''), Simple rec_B),
      ((''Q'', PStr ''root/A''), Quad [(''C'', rec_Q1), (''Q2'', rec_Q2)])]"

text \<open>
  Two quadrant gates, \<^verbatim>\<open>QA\<close> under the root and \<^verbatim>\<open>QB\<close> under \<^verbatim>\<open>A\<close>, that name their
  quadrants alike.
\<close>

definition shared_raw :: "real raw_results" where
  "shared_raw =
     [((''A'', PStr ''root''), Simple rec_A),
      ((''QA'', PStr ''root''), Quad [(''pos'', rec_Q1B), (''neg'', rec_Q2B)]),
      ((''QB'', PStr ''root/A''), Quad [(''pos'', rec_Q1), (''neg'', rec_Q2)])]"

text \<open>The objects built from the three, for the sample \<^verbatim>\<open>s1\<close>.\<close>

definition reused_results :: "real gating_results" where
  "reused_results = projr (GatingResults reused_raw ''s1'')"

definition clash_results :: "real gating_results" where
  "clash_results = projr (GatingResults clash_raw ''s1'')"

definition shared_results :: "real gating_results" where
  "shared_results = projr (GatingResults shared_raw ''s1'')"






section \<open>Properties\<close>

subsection \<open>What the construction computes\<close>

text \<open>
  The two loops, characterised: on well-shaped raw results they succeed, the rows they
  collect are the flattening in the order of the raw results, and the lookup table holds,
  for each id, the paths of its occurrences in that order. On other raw results they fail.
\<close>

lemma paths_of_lut_add:
  "paths_of (lut_add lut g p) g' = paths_of lut g' @ (if g = g' then [p] else [])"
  by (simp add: paths_of_def lut_add_def split: option.splits)

lemma lut_filled_lut_add: "lut_filled lut \<Longrightarrow> lut_filled (lut_add lut g p)"
  by (simp add: lut_filled_def lut_add_def split: option.splits)

lemma process_sub_gates_eq:
  "\<exists>lut'. process_sub_gates g_id g_path subs (pd_list, lut) =
      (pd_list @ map (\<lambda>(s, r). (get_pd_result_dict r s)\<lparr>quadrant_parent := Some g_id\<rparr>) subs, lut')
    \<and> (\<forall>g. paths_of lut' g = paths_of lut g @ map (\<lambda>x. g_path) (filter (\<lambda>(s, r). s = g) subs))
    \<and> (lut_filled lut \<longrightarrow> lut_filled lut')"
proof (induction subs arbitrary: pd_list lut)
  case Nil
  then show ?case by simp
next
  case (Cons a subs)
  obtain s r where a: "a = (s, r)" by (cases a)
  from Cons.IH [of "pd_list @ [(get_pd_result_dict r s)\<lparr>quadrant_parent := Some g_id\<rparr>]" "lut_add lut s g_path"]
  obtain lut' where
    1: "process_sub_gates g_id g_path subs
          (pd_list @ [(get_pd_result_dict r s)\<lparr>quadrant_parent := Some g_id\<rparr>], lut_add lut s g_path) =
        ((pd_list @ [(get_pd_result_dict r s)\<lparr>quadrant_parent := Some g_id\<rparr>]) @
           map (\<lambda>(s, r). (get_pd_result_dict r s)\<lparr>quadrant_parent := Some g_id\<rparr>) subs, lut')"
    and 2: "\<forall>g. paths_of lut' g = paths_of (lut_add lut s g_path) g @
               map (\<lambda>x. g_path) (filter (\<lambda>(s, r). s = g) subs)"
    and 3: "lut_filled (lut_add lut s g_path) \<longrightarrow> lut_filled lut'"
    by blast
  show ?case
    unfolding a
    apply (rule exI [of _ lut'])
    using 1 2 3 by (simp add: paths_of_lut_add lut_filled_lut_add)
qed

lemma add_level_dict [simp]:
  "add_level (get_pd_result_dict r g) = flat_row None g r"
  "add_level ((get_pd_result_dict r g)\<lparr>quadrant_parent := qp\<rparr>) = flat_row qp g r"
  by (simp_all add: add_level_def get_pd_result_dict_def flat_row_def)

lemma occurrences_simps [simp]:
  "occurrences [] g = []"
  "occurrences (e # raw) g = entry_occurrences g e @ occurrences raw g"
  by (simp_all add: occurrences_def)

lemma shapes_ok_simps [simp]:
  "shapes_ok []"
  "shapes_ok (((g_id, g_path), res) # raw) = (well_shaped res \<and> shapes_ok raw)"
  by (simp_all add: shapes_ok_def)

lemma process_items_eq:
  "shapes_ok raw \<Longrightarrow>
   \<exists>pd' lut'. process_items raw (pd_list, lut) = Inr (pd', lut')
     \<and> map add_level pd' = map add_level pd_list @ concat (map flat_rows raw)
     \<and> (\<forall>g. paths_of lut' g = paths_of lut g @ map (\<lambda>occ. fst (snd occ)) (occurrences raw g))
     \<and> (lut_filled lut \<longrightarrow> lut_filled lut')"
proof (induction raw arbitrary: pd_list lut)
  case Nil
  then show ?case by simp
next
  case (Cons e raw)
  obtain g_id g_path res where e: "e = ((g_id, g_path), res)" by (cases e) auto
  from Cons.prems have shaped: "well_shaped res" and rest: "shapes_ok raw"
    by (simp_all add: e)
  show ?case
  proof (cases res)
    case (Simple res_dict)
    from Cons.IH [OF rest, of "pd_list @ [get_pd_result_dict res_dict g_id]" "lut_add lut g_id g_path"]
    obtain pd' lut' where
      1: "process_items raw (pd_list @ [get_pd_result_dict res_dict g_id], lut_add lut g_id g_path)
            = Inr (pd', lut')"
      and 2: "map add_level pd' =
                map add_level (pd_list @ [get_pd_result_dict res_dict g_id]) @ concat (map flat_rows raw)"
      and 3: "\<forall>g. paths_of lut' g = paths_of (lut_add lut g_id g_path) g @
                map (\<lambda>occ. fst (snd occ)) (occurrences raw g)"
      and 4: "lut_filled (lut_add lut g_id g_path) \<longrightarrow> lut_filled lut'"
      by blast
    show ?thesis
      apply (rule exI [of _ pd'], rule exI [of _ lut'])
      using 1 2 3 4 by (simp add: e Simple paths_of_lut_add lut_filled_lut_add)
  next
    case (Quad subs)
    from shaped have noev: "''events'' \<notin> set (map fst subs)" by (simp add: Quad)
    from process_sub_gates_eq [of g_id g_path subs pd_list lut]
    obtain lut1 where
      s1: "process_sub_gates g_id g_path subs (pd_list, lut) =
         (pd_list @ map (\<lambda>(s, r). (get_pd_result_dict r s)\<lparr>quadrant_parent := Some g_id\<rparr>) subs, lut1)"
      and s2: "\<forall>g. paths_of lut1 g = paths_of lut g @ map (\<lambda>x. g_path) (filter (\<lambda>(s, r). s = g) subs)"
      and s3: "lut_filled lut \<longrightarrow> lut_filled lut1"
      by blast
    from Cons.IH [OF rest,
        of "pd_list @ map (\<lambda>(s, r). (get_pd_result_dict r s)\<lparr>quadrant_parent := Some g_id\<rparr>) subs" lut1]
    obtain pd' lut' where
      1: "process_items raw
            (pd_list @ map (\<lambda>(s, r). (get_pd_result_dict r s)\<lparr>quadrant_parent := Some g_id\<rparr>) subs, lut1)
            = Inr (pd', lut')"
      and 2: "map add_level pd' =
                map add_level (pd_list @
                  map (\<lambda>(s, r). (get_pd_result_dict r s)\<lparr>quadrant_parent := Some g_id\<rparr>) subs)
                @ concat (map flat_rows raw)"
      and 3: "\<forall>g. paths_of lut' g = paths_of lut1 g @ map (\<lambda>occ. fst (snd occ)) (occurrences raw g)"
      and 4: "lut_filled lut1 \<longrightarrow> lut_filled lut'"
      by blast
    have rows: "map (add_level \<circ> (\<lambda>(s, r). (get_pd_result_dict r s)\<lparr>quadrant_parent := Some g_id\<rparr>)) subs
        = map (\<lambda>(s, r). flat_row (Some g_id) s r) subs"
      by (rule map_cong) auto
    have paths: "map (\<lambda>x. g_path) (filter (\<lambda>(s, r). s = g) subs) =
        map (\<lambda>occ. fst (snd occ)) (map (\<lambda>(s, sub_res). (Some g_id, g_path, sub_res)) (filter (\<lambda>(s, sub_res). s = g) subs))" for g
      by (simp add: comp_def case_prod_beta)
    show ?thesis
      apply (rule exI [of _ pd'], rule exI [of _ lut'])
      using 1 2 3 4 s1 s2 s3 noev rows by (simp add: e Quad paths)
  qed
qed

lemma process_items_shapes:
  "process_items raw st = Inr st' \<Longrightarrow> shapes_ok raw"
proof (induction raw arbitrary: st)
  case Nil
  then show ?case by simp
next
  case (Cons e raw)
  obtain g_id g_path res where e: "e = ((g_id, g_path), res)" by (cases e) auto
  obtain pd_list lut where st: "st = (pd_list, lut)" by (cases st)
  show ?case
  proof (cases res)
    case (Simple res_dict)
    with Cons.prems have "process_items raw (pd_list @ [get_pd_result_dict res_dict g_id], lut_add lut g_id g_path) = Inr st'"
      by (simp add: e st)
    from Cons.IH [OF this] show ?thesis by (simp add: e Simple)
  next
    case (Quad subs)
    show ?thesis
    proof (cases "''events'' \<in> set (map fst subs)")
      case True
      with Cons.prems show ?thesis by (simp add: e st Quad split: if_splits sum.splits)
    next
      case False
      with Cons.prems have "process_items raw (process_sub_gates g_id g_path subs (pd_list, lut)) = Inr st'"
        by (simp add: e st Quad)
      from Cons.IH [OF this] False show ?thesis by (simp add: e Quad)
    qed
  qed
qed

lemma paths_of_empty [simp]: "paths_of Map.empty g = []"
  by (simp add: paths_of_def)

lemma lut_filled_empty [simp]: "lut_filled Map.empty"
  by (simp add: lut_filled_def)

lemma built:
  assumes "GatingResults raw sid = Inr R"
  shows "shapes_ok raw"
    and "raw_results R = raw"
    and "sample_id R = sid"
    and "report R = sort_values (concat (map flat_rows raw))"
    and "paths_of (gate_lut R) g = map (\<lambda>occ. fst (snd occ)) (occurrences raw g)"
    and "lut_filled (gate_lut R)"
proof -
  from assms obtain pd lut where p: "process_items raw ([], Map.empty) = Inr (pd, lut)"
    and R: "R = \<lparr> raw_results = raw, gate_lut = lut, report = sort_values (map add_level pd),
                  sample_id = sid \<rparr>"
    by (auto simp: GatingResults_def process_results_def split: sum.splits prod.splits)
  from p show ok: "shapes_ok raw" by (rule process_items_shapes)
  from process_items_eq [OF ok, of "[]" Map.empty] p
  have rows: "map add_level pd = concat (map flat_rows raw)"
    and paths: "\<forall>g. paths_of lut g = map (\<lambda>occ. fst (snd occ)) (occurrences raw g)"
    and filled: "lut_filled lut"
    by auto
  show "raw_results R = raw" "sample_id R = sid" by (simp_all add: R)
  show "report R = sort_values (concat (map flat_rows raw))" by (simp add: R rows)
  show "paths_of (gate_lut R) g = map (\<lambda>occ. fst (snd occ)) (occurrences raw g)"
    using paths by (simp add: R)
  show "lut_filled (gate_lut R)" using filled by (simp add: R)
qed

lemma shaped_builds:
  assumes "shapes_ok raw"
  shows "\<exists>R. GatingResults raw sid = Inr R"
proof -
  from process_items_eq [OF assms, of "[]" Map.empty]
  obtain pd lut where "process_items raw ([], Map.empty) = Inr (pd, lut)" by blast
  then show ?thesis by (simp add: GatingResults_def process_results_def)
qed

lemma lut_paths:
  assumes "GatingResults raw sid = Inr R"
  shows "gate_lut R g = None \<longleftrightarrow> occurrences raw g = []"
    and "gate_lut R g = Some ps \<Longrightarrow> ps = map (\<lambda>occ. fst (snd occ)) (occurrences raw g) \<and> ps \<noteq> []"
proof -
  note p = built(5) [OF assms, of g] and f = built(6) [OF assms]
  show "gate_lut R g = None \<longleftrightarrow> occurrences raw g = []"
    using p f by (cases "gate_lut R g") (auto simp: paths_of_def lut_filled_def)
  show "gate_lut R g = Some ps \<Longrightarrow> ps = map (\<lambda>occ. fst (snd occ)) (occurrences raw g) \<and> ps \<noteq> []"
    using p f by (auto simp: paths_of_def lut_filled_def)
qed

lemma flat_row_sel [simp]:
  "gate_id (flat_row qp g r) = g"
  "quadrant_parent (flat_row qp g r) = qp"
  "sample (flat_row qp g r) = sample r"
  "count (flat_row qp g r) = count r"
  "absolute_percent (flat_row qp g r) = absolute_percent r"
  "relative_percent (flat_row qp g r) = relative_percent r"
  "gate_path (flat_row qp g r) = gate_path r"
  "level (flat_row qp g r) = length (gate_path r)"
  by (simp_all add: flat_row_def)

lemma filter_flat_rows:
  "filter (\<lambda>r. gate_id r = g) (flat_rows e) = map (occurrence_row g) (entry_occurrences g e)"
proof -
  obtain g_id g_path res where e: "e = ((g_id, g_path), res)" by (cases e) auto
  show ?thesis
  proof (cases res)
    case (Simple res_dict)
    then show ?thesis by (simp add: e occurrence_row_def)
  next
    case (Quad subs)
    have "filter (\<lambda>r. gate_id r = g) (map (\<lambda>(s, r). flat_row (Some g_id) s r) subs)
        = map (occurrence_row g) (map (\<lambda>(s, r). (Some g_id, g_path, r)) (filter (\<lambda>(s, r). s = g) subs))"
      by (induction subs) (auto simp: occurrence_row_def)
    then show ?thesis by (simp add: e Quad)
  qed
qed

lemma filter_rows:
  "filter (\<lambda>r. gate_id r = g) (concat (map flat_rows raw)) = map (occurrence_row g) (occurrences raw g)"
  by (induction raw) (simp_all add: filter_flat_rows)

lemma all_records_entry:
  assumes "case res of Simple res_dict \<Rightarrow> P res_dict
             | Quad subs \<Rightarrow> list_all (\<lambda>(s, sub_res). P sub_res) subs"
    and "occ \<in> set (entry_occurrences g ((g_id, g_path), res))"
  shows "P (snd (snd occ))"
proof (cases res)
  case (Simple res_dict)
  with assms show ?thesis by (auto split: if_splits)
next
  case (Quad subs)
  with assms obtain s r where "(s, r) \<in> set subs" and "occ = (Some g_id, g_path, r)"
    by auto
  moreover from assms(1) have "\<forall>x \<in> set subs. P (snd x)"
    by (auto simp: Quad list_all_iff)
  ultimately show ?thesis by auto
qed

lemma all_records_occurrences:
  assumes "all_records P raw" and "occ \<in> set (occurrences raw g)"
  shows "P (snd (snd occ))"
  using assms
proof (induction raw)
  case Nil
  then show ?case by simp
next
  case (Cons e raw)
  obtain g_id g_path res where e: "e = ((g_id, g_path), res)" by (cases e) auto
  from Cons.prems(1) have hd: "case res of Simple res_dict \<Rightarrow> P res_dict
             | Quad subs \<Rightarrow> list_all (\<lambda>(s, sub_res). P sub_res) subs"
    and tl: "all_records P raw"
    by (simp_all add: all_records_def e)
  from Cons.prems(2) consider "occ \<in> set (entry_occurrences g ((g_id, g_path), res))"
    | "occ \<in> set (occurrences raw g)"
    by (auto simp: e)
  then show ?case
  proof cases
    case 1
    from all_records_entry [OF hd 1] show ?thesis .
  next
    case 2
    from Cons.IH [OF tl 2] show ?thesis .
  qed
qed

lemma one_sample_occurrences:
  assumes "one_sample sid raw" and "occ \<in> set (occurrences raw g)"
  shows "sample (snd (snd occ)) = sid"
  using all_records_occurrences [of "\<lambda>r. sample r = sid" raw occ g] assms
  by (simp add: one_sample_def)

lemma gate_rows_built:
  assumes "GatingResults raw sid = Inr R" and "one_sample sid raw"
  shows "gate_rows R g =
           sort_key (\<lambda>r. (sample r, level r, gate_id r)) (map (occurrence_row g) (occurrences raw g))"
proof -
  have "filter (\<lambda>r. sample r = sid \<and> gate_id r = g) (concat (map flat_rows raw))
      = filter (\<lambda>r. sample r = sid) (filter (\<lambda>r. gate_id r = g) (concat (map flat_rows raw)))"
    by (simp add: conj_commute)
  also have "\<dots> = filter (\<lambda>r. sample r = sid) (map (occurrence_row g) (occurrences raw g))"
    by (simp only: filter_rows)
  also have "\<dots> = map (occurrence_row g) (occurrences raw g)"
    using one_sample_occurrences [OF assms(2)]
    by (auto simp: filter_id_conv occurrence_row_def)
  finally show ?thesis
    by (simp add: gate_rows_def built(3,4) [OF assms(1)] sort_values_def filter_sort)
qed

lemma gate_rows_unknown:
  assumes "GatingResults raw sid = Inr R" and "occurrences raw g = []"
  shows "gate_rows R g = []"
proof -
  have "filter (\<lambda>r. sample r = sid \<and> gate_id r = g) (concat (map flat_rows raw))
      = filter (\<lambda>r. sample r = sid) (filter (\<lambda>r. gate_id r = g) (concat (map flat_rows raw)))"
    by (simp add: conj_commute)
  also have "\<dots> = []" by (simp only: filter_rows assms(2)) simp
  finally show ?thesis
    by (simp add: gate_rows_def built(3,4) [OF assms(1)] sort_values_def filter_sort)
qed

lemma remdups_single: "set xs = {a} \<Longrightarrow> remdups xs = [a]"
proof -
  assume s: "set xs = {a}"
  have "length (remdups xs) = 1" using s by (simp add: length_remdups_card_conv)
  then obtain b where b: "remdups xs = [b]" by (cases "remdups xs") auto
  have "set (remdups xs) = {a}" using s by simp
  with b show ?thesis by simp
qed

lemma quad_parents_built:
  assumes "GatingResults raw sid = Inr R" and "one_sample sid raw"
  shows "set (map quadrant_parent (gate_rows R g)) = fst ` set (occurrences raw g)"
proof -
  have "quadrant_parent \<circ> occurrence_row g = (fst :: 'a occurrence \<Rightarrow> string option)"
    by (rule ext) (simp add: occurrence_row_def)
  then show ?thesis
    by (simp add: gate_rows_built [OF assms] image_comp)
qed

lemma reused_built: "\<exists>R. GatingResults reused_raw ''s1'' = Inr R"
  by (rule shaped_builds) (simp add: reused_raw_def)

lemma clash_built: "\<exists>R. GatingResults clash_raw ''s1'' = Inr R"
  by (rule shaped_builds) (simp add: clash_raw_def)

subsection \<open>Looking a gate up\<close>

text \<open>
  The record of an occurrence is the one the raw results store under its key, and a
  lookup whose rows agree on the quadrant parent returns the vector of that record.
\<close>

lemma entry_occurrence_stored:
  assumes "(qp, k, r) \<in> set (entry_occurrences g e)"
  shows "(qp = None \<and> e = ((g, k), Simple r)) \<or>
         (\<exists>q subs. qp = Some q \<and> e = ((q, k), Quad subs) \<and> (g, r) \<in> set subs)"
proof -
  obtain g_id g_path res where e: "e = ((g_id, g_path), res)" by (cases e) auto
  show ?thesis
  proof (cases res)
    case (Simple res_dict)
    with assms show ?thesis by (auto simp: e split: if_splits)
  next
    case (Quad subs)
    with assms show ?thesis by (auto simp: e)
  qed
qed

lemma occurrence_in_raw:
  assumes "(qp, k, r) \<in> set (occurrences raw g)"
  shows "(qp = None \<and> ((g, k), Simple r) \<in> set raw) \<or>
         (\<exists>q subs. qp = Some q \<and> ((q, k), Quad subs) \<in> set raw \<and> (g, r) \<in> set subs)"
proof -
  from assms obtain e where e: "e \<in> set raw" and occ: "(qp, k, r) \<in> set (entry_occurrences g e)"
    by (auto simp: occurrences_def)
  from entry_occurrence_stored [OF occ] e show ?thesis by auto
qed

lemma occurrence_stored:
  assumes "dict_keys raw" and "(qp, k, r) \<in> set (occurrences raw g)"
  shows "stored_record raw qp g k = Some r"
proof -
  from assms(1) have d: "distinct (map fst raw)"
    and sub: "\<And>key subs. (key, Quad subs) \<in> set raw \<Longrightarrow> distinct (map fst subs)"
    by (auto simp: dict_keys_def list_all_iff)
  from occurrence_in_raw [OF assms(2)] show ?thesis
  proof (elim disjE conjE exE)
    assume "qp = None" and "((g, k), Simple r) \<in> set raw"
    then show ?thesis using d by (simp add: stored_record_def)
  next
    fix q subs
    assume q: "qp = Some q" and in_raw: "((q, k), Quad subs) \<in> set raw" and in_subs: "(g, r) \<in> set subs"
    from in_raw d have "map_of raw (q, k) = Some (Quad subs)" by simp
    moreover from sub [OF in_raw] in_subs have "map_of subs g = Some r" by simp
    ultimately show ?thesis by (simp add: stored_record_def q)
  qed
qed

lemma stored_events:
  assumes "stored_record raw qp g p = Some r"
  shows "(case qp of None \<Rightarrow> events_at raw g p | Some q \<Rightarrow> quad_events_at raw q p g) = Inr (Vec (events r))"
proof (cases qp)
  case None
  with assms show ?thesis
    by (simp add: stored_record_def events_at_def split: option.splits raw_result.splits)
next
  case (Some q)
  with assms obtain subs where "map_of raw (q, p) = Some (Quad subs)" and "map_of subs g = Some r"
    by (auto simp: stored_record_def split: option.splits raw_result.splits)
  with Some show ?thesis by (simp add: quad_events_at_def)
qed

lemma indices_single_parent:
  assumes lut: "gate_lut R g = Some ps"
    and path: "resolve_path ps path = Inr p"
    and parents: "set (map quadrant_parent (gate_rows R g)) = {qp}"
    and stored: "stored_record (raw_results R) qp g p = Some r"
  shows "get_gate_indices R g path = Inr (Vec (events r))"
proof -
  from parents have "remdups (map quadrant_parent (gate_rows R g)) = [qp]"
    by (rule remdups_single)
  with lut path stored_events [OF stored] show ?thesis
    by (cases qp) (simp_all add: get_gate_indices_def)
qed

lemma reused_results: "GatingResults reused_raw ''s1'' = Inr reused_results"
  using reused_built by (auto simp: reused_results_def)

lemma clash_results: "GatingResults clash_raw ''s1'' = Inr clash_results"
  using clash_built by (auto simp: clash_results_def)

lemma id_rows_built:
  assumes "GatingResults raw sid = Inr R"
  shows "filter (\<lambda>r. gate_id r = g) (report R) =
           sort_key (\<lambda>r. (sample r, level r, gate_id r)) (map (occurrence_row g) (occurrences raw g))"
  by (simp add: built(4) [OF assms] sort_values_def filter_sort filter_rows)

lemma single_path_lookup:
  assumes b: "GatingResults raw sid = Inr R"
    and one: "one_sample sid raw"
    and lut: "gate_lut R g = Some [k]"
  shows "\<exists>qp r. occurrences raw g = [(qp, k, r)]
           \<and> gate_rows R g = [flat_row qp g r]
           \<and> filter (\<lambda>r. gate_id r = g) (report R) = [flat_row qp g r]"
proof -
  from lut_paths(2) [OF b lut] have "map (\<lambda>occ. fst (snd occ)) (occurrences raw g) = [k]"
    by simp
  then obtain occ where occs: "occurrences raw g = [occ]" and k: "fst (snd occ) = k"
    by (cases "occurrences raw g") auto
  obtain qp r where occ: "occ = (qp, k, r)" using k by (cases occ) auto
  have "gate_rows R g = [flat_row qp g r]"
    by (simp add: gate_rows_built [OF b one] occs occ occurrence_row_def)
  moreover have "filter (\<lambda>r. gate_id r = g) (report R) = [flat_row qp g r]"
    by (simp add: id_rows_built [OF b] occs occ occurrence_row_def)
  ultimately show ?thesis using occs occ by simp
qed

lemma single_path_indices:
  assumes b: "GatingResults raw sid = Inr R"
    and keys: "dict_keys raw"
    and one: "one_sample sid raw"
    and lut: "gate_lut R g = Some [k]"
    and occs: "occurrences raw g = [(qp, k, r)]"
  shows "get_gate_indices R g path = Inr (Vec (events r))"
proof -
  have "stored_record raw qp g k = Some r"
    by (rule occurrence_stored [OF keys]) (simp add: occs)
  then have stored: "stored_record (raw_results R) qp g k = Some r"
    by (simp add: built(2) [OF b])
  have parents: "set (map quadrant_parent (gate_rows R g)) = {qp}"
    using quad_parents_built [OF b one, of g] by (simp add: occs)
  have path: "resolve_path [k] path = Inr k"
    by (simp add: resolve_path_def)
  from indices_single_parent [OF lut path parents stored] show ?thesis .
qed

lemma resolve_given_path:
  assumes "ps \<noteq> []" and "path \<noteq> PNone"
  shows "\<exists>p. resolve_path ps path = Inr p"
  using assms by (cases ps; cases path) (simp_all add: resolve_path_def)

lemma events_at_error: "events_at raw g p \<noteq> Inl ValueError_quadrant_parents"
  by (simp add: events_at_def split: option.splits raw_result.splits)

lemma quad_events_at_error: "quad_events_at raw q p g \<noteq> Inl ValueError_quadrant_parents"
proof (cases "map_of raw (q, p)")
  case None
  then show ?thesis by (simp add: quad_events_at_def)
next
  case (Some res)
  then show ?thesis
    by (cases res) (simp_all add: quad_events_at_def split: option.splits if_splits)
qed

lemma reused_keys: "dict_keys reused_raw"
  by (simp add: dict_keys_def reused_raw_def)

lemma reused_one_sample: "one_sample ''s1'' reused_raw"
  by (simp add: one_sample_def all_records_def reused_raw_def
      rec_A_def rec_B_def rec_CA_def rec_CB_def rec_Q1_def rec_Q2_def rec_Q1B_def rec_Q2B_def)

lemma reused_counted: "counted reused_raw"
  by (simp add: counted_def all_records_def reused_raw_def vec_sum_def
      rec_A_def rec_B_def rec_CA_def rec_CB_def rec_Q1_def rec_Q2_def rec_Q1B_def rec_Q2B_def)

lemma clash_one_sample: "one_sample ''s1'' clash_raw"
  by (simp add: one_sample_def all_records_def clash_raw_def
      rec_A_def rec_B_def rec_Q1_def rec_Q2_def)

lemma reused_lut_A: "gate_lut reused_results ''A'' = Some [PStr ''root'']"
  unfolding reused_results_def by code_simp

lemma reused_lut_C: "gate_lut reused_results ''C'' = Some [PStr ''root/A'', PStr ''root/B'']"
  unfolding reused_results_def by code_simp

lemma reused_lut_Q1: "gate_lut reused_results ''Q1'' = Some [PStr ''root/A'', PStr ''root/B'']"
  unfolding reused_results_def by code_simp

lemma clash_lut_C: "gate_lut clash_results ''C'' = Some [PStr ''root'', PStr ''root/A'']"
  unfolding clash_results_def by code_simp

subsection \<open>Rows of the flattening\<close>

lemma flat_rows_level: "r \<in> set (flat_rows e) \<Longrightarrow> level r = length (gate_path r)"
proof -
  assume r: "r \<in> set (flat_rows e)"
  obtain g_id g_path res where e: "e = ((g_id, g_path), res)" by (cases e) auto
  show ?thesis using r by (cases res) (auto simp: e)
qed

lemma reused_shapes: "shapes_ok reused_raw"
  by (simp add: reused_raw_def)

lemma vec_sum_Nil [simp]: "vec_sum [] = 0"
  by (simp add: vec_sum_def)

subsection \<open>The records of the modelled engine\<close>





subsection \<open>The procedures on the heap\<close>

text \<open>
  A call changes the heap only at addresses it has allocated itself, so every heap that
  comes after is \<open>preserved\<close> from the one before; and on a heap that holds the object at
  an allocated address the procedures return what the methods of the sections above
  return. The last lemma is the check that \<open>preserved\<close> sees a mutation: a \<^verbatim>\<open>pop\<close> on a
  set that the caller already had is not preserved.
\<close>

lemma preserved_refl [simp]: "preserved h h"
  by (simp add: preserved_def)






lemma answered_sel [simp]:
  "fst (answered tag m h) = map_sum id tag (fst (m h))"
  "snd (answered tag m h) = snd (m h)"
  by (simp_all add: answered_def split: prod.splits)





lemma pop_not_preserved:
  assumes "cells h a = Some (PySet (x # xs))" and "a < next_free h"
  shows "\<not> preserved h (snd (pop a h))"
proof
  assume "preserved h (snd (pop a h))"
  with assms(2) have "cells (snd (pop a h)) a = cells h a" by (simp add: preserved_def)
  with assms(1) show False by (simp add: pop_def)
qed

subsection \<open>An ambiguous id with its path\<close>

text \<open>
  C1, as amended. Let a gate id have more than one path in the lookup table of a
  constructed object whose records all belong to its sample, and let every occurrence of
  the id have the same quadrant parent \<open>qp\<close> (\<open>None\<close> when the id names ordinary gates,
  the one quadrant gate when it names quadrants). Then \<^verbatim>\<open>get_gate_indices\<close>, given the
  path either as the \<^verbatim>\<open>/\<close>-joined string or as the list of ids that joins to it,
  returns the membership vector of the record stored under that path: the record at
  (gate id, path) for an ordinary gate, the sub-record of the id inside the dictionary at
  (quadrant parent, path) for a quadrant.
\<close>

theorem path_qualified_indices:
  assumes "GatingResults raw sid = Inr R"
    and "one_sample sid raw"
    and "gate_lut R g = Some ps"
    and "1 < length ps"
    and "\<forall>occ \<in> set (occurrences raw g). fst occ = qp"
    and "stored_record raw qp g (PStr s) = Some r"
  shows "get_gate_indices R g (PStr s) = Inr (Vec (events r))
    \<and> (\<forall>ids. join ''/'' ids = s \<longrightarrow> get_gate_indices R g (PList ids) = Inr (Vec (events r)))"
proof -
  from lut_paths(2) [OF assms(1,3)] have "occurrences raw g \<noteq> []" by auto
  with assms(5) have "fst ` set (occurrences raw g) = {qp}"
    by (cases "occurrences raw g") auto
  then have parents: "set (map quadrant_parent (gate_rows R g)) = {qp}"
    by (simp only: quad_parents_built [OF assms(1,2)])
  have stored: "stored_record (raw_results R) qp g (PStr s) = Some r"
    using assms(6) by (simp add: built(2) [OF assms(1)])
  have str: "resolve_path ps (PStr s) = Inr (PStr s)"
    using assms(4) by (simp add: resolve_path_def)
  have lst: "resolve_path ps (PList ids) = Inr (PStr s)" if "join ''/'' ids = s" for ids
    using assms(4) that by (simp add: resolve_path_def)
  from indices_single_parent [OF assms(3) str parents stored]
    indices_single_parent [OF assms(3) lst parents stored]
  show ?thesis by blast
qed

theorem path_qualified_indices_witness:
  "one_sample ''s1'' reused_raw
   \<and> gate_lut reused_results ''C'' = Some [PStr ''root/A'', PStr ''root/B'']
   \<and> get_gate_indices reused_results ''C'' (PStr ''root/B'') = Inr (Vec [True, False, True, False])
   \<and> get_gate_indices reused_results ''C'' (PList [''root'', ''B'']) = Inr (Vec [True, False, True, False])
   \<and> gate_lut reused_results ''Q1'' = Some [PStr ''root/A'', PStr ''root/B'']
   \<and> get_gate_indices reused_results ''Q1'' (PStr ''root/B'') = Inr (Vec [True, False, True, True])
   \<and> get_gate_indices reused_results ''Q1'' (PList [''root'', ''B'']) = Inr (Vec [True, False, True, True])"
proof -
  have c_parent: "\<forall>occ \<in> set (occurrences reused_raw ''C''). fst occ = None"
    by (simp add: reused_raw_def)
  have c_stored: "stored_record reused_raw None ''C'' (PStr ''root/B'') = Some rec_CB"
    by (simp add: stored_record_def reused_raw_def)
  have q_parent: "\<forall>occ \<in> set (occurrences reused_raw ''Q1''). fst occ = Some ''Q''"
    by (simp add: reused_raw_def)
  have q_stored: "stored_record reused_raw (Some ''Q'') ''Q1'' (PStr ''root/B'') = Some rec_Q1B"
    by (simp add: stored_record_def reused_raw_def)
  have j: "join ''/'' [''root'', ''B''] = ''root/B''" by simp
  from path_qualified_indices [OF reused_results reused_one_sample reused_lut_C _ c_parent c_stored]
    path_qualified_indices [OF reused_results reused_one_sample reused_lut_Q1 _ q_parent q_stored]
    j reused_one_sample reused_lut_C reused_lut_Q1
  show ?thesis by (simp add: rec_CB_def rec_Q1B_def)
qed

text \<open>
  The claim without the condition on the quadrant parents fails. In \<open>clash_raw\<close> the id
  \<^verbatim>\<open>C\<close> has two paths, a record is stored at (\<^verbatim>\<open>C\<close>, \<^verbatim>\<open>root\<close>), and the call with that path,
  as a string or as a list, raises the error about several quadrant parents. So does the
  call for the quadrant \<^verbatim>\<open>pos\<close> in \<open>shared_raw\<close>, which two quadrant gates have.
\<close>

theorem path_qualified_indices_counterexample:
  "gate_lut clash_results ''C'' = Some [PStr ''root'', PStr ''root/A'']
   \<and> map_of (raw_results clash_results) (''C'', PStr ''root'') = Some (Simple rec_B)
   \<and> get_gate_indices clash_results ''C'' (PStr ''root'') = Inl ValueError_quadrant_parents
   \<and> get_gate_indices clash_results ''C'' (PList [''root'']) = Inl ValueError_quadrant_parents
   \<and> gate_lut shared_results ''pos'' = Some [PStr ''root'', PStr ''root/A'']
   \<and> stored_record (raw_results shared_results) (Some ''QB'') ''pos'' (PStr ''root/A'') = Some rec_Q1
   \<and> get_gate_indices shared_results ''pos'' (PStr ''root/A'') = Inl ValueError_quadrant_parents
   \<and> get_gate_indices shared_results ''pos'' (PList [''root'', ''A'']) = Inl ValueError_quadrant_parents"
  unfolding clash_results_def shared_results_def by code_simp

subsection \<open>The membership vector and the count of an unambiguous id\<close>

text \<open>
  C2. For a gate id with exactly one path, on a constructed object whose raw results are
  a dictionary of records of its sample in which every record's count is the sum of its
  membership vector (as the evaluation engine computes it), \<^verbatim>\<open>get_gate_indices(gate_id)\<close>
  returns a vector and \<^verbatim>\<open>get_gate_count(gate_id)\<close> returns the sum of that vector.
\<close>

theorem indices_sum_is_count:
  assumes "GatingResults raw sid = Inr R"
    and "dict_keys raw"
    and "one_sample sid raw"
    and "counted raw"
    and "gate_lut R g = Some [k]"
  shows "\<exists>v. get_gate_indices R g PNone = Inr (Vec v) \<and> get_gate_count R g = Inr (vec_sum v)"
proof -
  from single_path_lookup [OF assms(1,3,5)]
  obtain qp r where occs: "occurrences raw g = [(qp, k, r)]"
    and rows: "gate_rows R g = [flat_row qp g r]"
    by blast
  have "count r = vec_sum (events r)"
    using all_records_occurrences [of _ raw "(qp, k, r)" g] assms(4)
    by (simp add: counted_def occs)
  then have "get_gate_count R g = Inr (vec_sum (events r))"
    by (simp add: get_gate_count_def first_value_def rows)
  with single_path_indices [OF assms(1,2,3,5) occs, of PNone] show ?thesis by blast
qed

theorem indices_sum_is_count_witness:
  "dict_keys reused_raw \<and> one_sample ''s1'' reused_raw \<and> counted reused_raw
   \<and> gate_lut reused_results ''A'' = Some [PStr ''root'']
   \<and> get_gate_indices reused_results ''A'' PNone = Inr (Vec [True, True, False, False])
   \<and> get_gate_count reused_results ''A'' = Inr 2"
proof -
  from indices_sum_is_count
    [OF reused_results reused_keys reused_one_sample reused_counted reused_lut_A]
  obtain v where v: "get_gate_indices reused_results ''A'' PNone = Inr (Vec v)"
    and c: "get_gate_count reused_results ''A'' = Inr (vec_sum v)"
    by blast
  have "get_gate_indices reused_results ''A'' PNone = Inr (Vec [True, True, False, False])"
    unfolding reused_results_def by code_simp
  with v have "v = [True, True, False, False]" by simp
  with v c reused_keys reused_one_sample reused_counted reused_lut_A
  show ?thesis by (simp add: vec_sum_def)
qed

subsection \<open>The accessors by id only\<close>

text \<open>
  C3. On a constructed object whose records all belong to its sample, for a gate id of
  the lookup table: when the id has more than one path, each of \<^verbatim>\<open>get_gate_count\<close>,
  \<^verbatim>\<open>get_gate_absolute_percent\<close> and \<^verbatim>\<open>get_gate_relative_percent\<close> raises
  \<^verbatim>\<open>NotImplementedError\<close>; otherwise the report has exactly one row for the id, and the
  three return the count, the absolute percent and the relative percent of that row.
\<close>

theorem id_only_accessors:
  assumes "GatingResults raw sid = Inr R"
    and "one_sample sid raw"
    and "gate_lut R g = Some ps"
  shows "if 1 < length ps
         then get_gate_count R g = Inl NotImplementedError
            \<and> get_gate_absolute_percent R g = Inl NotImplementedError
            \<and> get_gate_relative_percent R g = Inl NotImplementedError
         else (\<exists>r. filter (\<lambda>r. gate_id r = g) (report R) = [r]
            \<and> get_gate_count R g = Inr (count r)
            \<and> get_gate_absolute_percent R g = Inr (absolute_percent r)
            \<and> get_gate_relative_percent R g = Inr (relative_percent r))"
proof (cases "1 < length ps")
  case True
  from lut_paths(2) [OF assms(1,3)] have "length (occurrences raw g) = length ps" by simp
  with True have "1 < length (gate_rows R g)"
    by (simp add: gate_rows_built [OF assms(1,2)])
  with True show ?thesis
    by (simp add: get_gate_count_def get_gate_absolute_percent_def
        get_gate_relative_percent_def first_value_def)
next
  case False
  from lut_paths(2) [OF assms(1,3)] have "ps \<noteq> []" by blast
  with False obtain k where ps: "ps = [k]" by (cases ps) auto
  from single_path_lookup [OF assms(1,2)] assms(3) ps
  obtain qp r where rows: "gate_rows R g = [flat_row qp g r]"
    and id_rows: "filter (\<lambda>r. gate_id r = g) (report R) = [flat_row qp g r]"
    by blast
  show ?thesis
    using False id_rows
    by (simp add: get_gate_count_def get_gate_absolute_percent_def
        get_gate_relative_percent_def first_value_def rows)
qed

theorem id_only_accessors_witness:
  "one_sample ''s1'' reused_raw
   \<and> gate_lut reused_results ''C'' = Some [PStr ''root/A'', PStr ''root/B'']
   \<and> get_gate_count reused_results ''C'' = Inl NotImplementedError
   \<and> get_gate_absolute_percent reused_results ''C'' = Inl NotImplementedError
   \<and> get_gate_relative_percent reused_results ''C'' = Inl NotImplementedError
   \<and> gate_lut reused_results ''A'' = Some [PStr ''root'']
   \<and> get_gate_count reused_results ''A'' = Inr 2
   \<and> get_gate_absolute_percent reused_results ''A'' = Inr 50
   \<and> get_gate_relative_percent reused_results ''A'' = Inr 50"
proof -
  from id_only_accessors [OF reused_results reused_one_sample reused_lut_A]
  obtain r where r: "filter (\<lambda>r. gate_id r = ''A'') (report reused_results) = [r]"
    and vals: "get_gate_count reused_results ''A'' = Inr (count r)"
      "get_gate_absolute_percent reused_results ''A'' = Inr (absolute_percent r)"
      "get_gate_relative_percent reused_results ''A'' = Inr (relative_percent r)"
    by auto
  have "filter (\<lambda>r. gate_id r = ''A'') (report reused_results) = [flat_row None ''A'' rec_A]"
    by (simp add: id_rows_built [OF reused_results] reused_raw_def occurrence_row_def)
  with r have "r = flat_row None ''A'' rec_A" by simp
  with vals id_only_accessors [OF reused_results reused_one_sample reused_lut_C]
    reused_one_sample reused_lut_A reused_lut_C
  show ?thesis by (simp add: rec_A_def)
qed

subsection \<open>An ambiguous id without a path\<close>

text \<open>
  C4. When the lookup table holds more than one path for a gate id, the call
  \<^verbatim>\<open>get_gate_indices(gate_id)\<close> with the gate path left out (\<^verbatim>\<open>None\<close>) raises the
  \<^verbatim>\<open>ValueError\<close> that says the id is ambiguous and the full gate path must be given.
\<close>

theorem ambiguous_without_path:
  assumes "gate_lut R g = Some ps" and "1 < length ps"
  shows "get_gate_indices R g PNone = Inl ValueError_ambiguous"
  using assms by (simp add: get_gate_indices_def resolve_path_def)

theorem ambiguous_without_path_witness:
  "gate_lut reused_results ''C'' = Some [PStr ''root/A'', PStr ''root/B'']
   \<and> 1 < length [PStr ''root/A'', PStr ''root/B'']
   \<and> get_gate_indices reused_results ''C'' PNone = Inl ValueError_ambiguous"
  using ambiguous_without_path [OF reused_lut_C] reused_lut_C by simp

subsection \<open>An unambiguous id with any path\<close>

text \<open>
  C5. For a gate id with exactly one path, on a constructed object whose raw results are
  a dictionary of records of its sample, the id occurs once in the raw results, and
  \<^verbatim>\<open>get_gate_indices\<close> returns the membership vector of that one record whatever the
  path argument is: left out, the stored path, or any other value.
\<close>

theorem single_path_ignores_argument:
  assumes "GatingResults raw sid = Inr R"
    and "dict_keys raw"
    and "one_sample sid raw"
    and "gate_lut R g = Some [k]"
  shows "\<exists>qp r. occurrences raw g = [(qp, k, r)]
           \<and> stored_record raw qp g k = Some r
           \<and> (\<forall>path. get_gate_indices R g path = Inr (Vec (events r)))"
proof -
  from single_path_lookup [OF assms(1,3,4)]
  obtain qp r where occs: "occurrences raw g = [(qp, k, r)]" by blast
  have "stored_record raw qp g k = Some r"
    by (rule occurrence_stored [OF assms(2)]) (simp add: occs)
  moreover have "\<forall>path. get_gate_indices R g path = Inr (Vec (events r))"
    using single_path_indices [OF assms occs] by simp
  ultimately show ?thesis using occs by blast
qed

theorem single_path_ignores_argument_witness:
  "dict_keys reused_raw \<and> one_sample ''s1'' reused_raw
   \<and> gate_lut reused_results ''A'' = Some [PStr ''root'']
   \<and> get_gate_indices reused_results ''A'' PNone = Inr (Vec [True, True, False, False])
   \<and> get_gate_indices reused_results ''A'' (PStr ''root'') = Inr (Vec [True, True, False, False])
   \<and> get_gate_indices reused_results ''A'' (PList [''root'', ''B'']) = Inr (Vec [True, True, False, False])"
proof -
  from single_path_ignores_argument
    [OF reused_results reused_keys reused_one_sample reused_lut_A]
  obtain qp r where occs: "occurrences reused_raw ''A'' = [(qp, PStr ''root'', r)]"
    and any: "\<forall>path. get_gate_indices reused_results ''A'' path = Inr (Vec (events r))"
    by blast
  have "occurrences reused_raw ''A'' = [(None, PStr ''root'', rec_A)]"
    by (simp add: reused_raw_def)
  with occs have "r = rec_A" by simp
  with any reused_keys reused_one_sample reused_lut_A show ?thesis by (simp add: rec_A_def)
qed

subsection \<open>The flattening of the raw results\<close>

text \<open>
  C6. For raw results in which every value is a record or a quadrant dictionary (a value
  without the key \<^verbatim>\<open>'events'\<close>), the construction succeeds, and the rows of the report
  are, up to their order, those of the flattening: each quadrant dictionary contributes
  exactly one row for each of its sub-gate ids, with the id of the quadrant gate as
  \<^verbatim>\<open>quadrant_parent\<close>; each other record contributes exactly one row, with
  \<^verbatim>\<open>quadrant_parent\<close> null; and the level of every row is the length of its gate path.
\<close>

theorem report_flattens_raw_results:
  assumes "shapes_ok raw"
  shows "\<exists>R. GatingResults raw sid = Inr R
    \<and> mset (report R) = mset (concat (map flat_rows raw))
    \<and> (\<forall>r \<in> set (report R). level r = length (gate_path r))"
proof -
  from shaped_builds [OF assms] obtain R where R: "GatingResults raw sid = Inr R" ..
  have rep: "report R = sort_values (concat (map flat_rows raw))" by (rule built(4) [OF R])
  then have "mset (report R) = mset (concat (map flat_rows raw))"
    by (simp add: sort_values_def)
  moreover have "\<forall>r \<in> set (report R). level r = length (gate_path r)"
    by (auto simp: rep sort_values_def flat_rows_level)
  ultimately show ?thesis using R by blast
qed

theorem report_flattens_raw_results_witness:
  "shapes_ok reused_raw
   \<and> mset (report reused_results) = mset (concat (map flat_rows reused_raw))
   \<and> list_all (\<lambda>r. level r = length (gate_path r)) (report reused_results)
   \<and> length (report reused_results) = 8"
proof -
  from report_flattens_raw_results [OF reused_shapes, of "''s1''"] reused_results
  have m: "mset (report reused_results) = mset (concat (map flat_rows reused_raw))"
    and l: "\<forall>r \<in> set (report reused_results). level r = length (gate_path r)"
    by auto
  from m have "size (mset (report reused_results)) = size (mset (concat (map flat_rows reused_raw)))"
    by simp
  then have "length (report reused_results) = 8"
    by (simp add: reused_raw_def)
  with m l reused_shapes show ?thesis by (simp add: list_all_iff)
qed

subsection \<open>Several quadrant parents\<close>

text \<open>
  C7, as amended. On a constructed object whose records all belong to its sample,
  \<^verbatim>\<open>get_gate_indices\<close> raises the error about several quadrant parents exactly when a
  gate path is given (any value but \<^verbatim>\<open>None\<close>) and the report rows of the gate id hold more
  than one distinct value in the column \<^verbatim>\<open>quadrant_parent\<close>; it then returns no vector
  and picks no parent.
\<close>

theorem quadrant_parents_error:
  assumes "GatingResults raw sid = Inr R"
    and "one_sample sid raw"
  shows "get_gate_indices R g path = Inl ValueError_quadrant_parents
    \<longleftrightarrow> path \<noteq> PNone \<and> 1 < card (quadrant_parent ` set (gate_rows R g))"
proof (cases "gate_lut R g")
  case None
  with assms(1) have "occurrences raw g = []" by (simp add: lut_paths(1))
  with assms(1) have "gate_rows R g = []" by (rule gate_rows_unknown)
  with None show ?thesis by (simp add: get_gate_indices_def)
next
  case (Some ps)
  from lut_paths(2) [OF assms(1) Some]
  have ps: "ps \<noteq> []" and len: "length (occurrences raw g) = length ps"
    by auto
  define qs where "qs = remdups (map quadrant_parent (gate_rows R g))"
  have card: "card (quadrant_parent ` set (gate_rows R g)) = length qs"
    by (simp add: qs_def length_remdups_card_conv)
  have rows: "length (gate_rows R g) = length ps"
    using len by (simp add: gate_rows_built [OF assms])
  with ps have "gate_rows R g \<noteq> []" by auto
  then have ne: "qs \<noteq> []" by (simp add: qs_def)
  have le: "length qs \<le> length ps"
    using length_remdups_leq [of "map quadrant_parent (gate_rows R g)"] rows
    by (simp add: qs_def)
  show ?thesis
  proof (cases "resolve_path ps path")
    case (Inl e)
    then have "path = PNone" and "e = ValueError_ambiguous"
      using ps by (cases ps; cases path; simp add: resolve_path_def split: if_splits)+
    with Some Inl show ?thesis by (simp add: get_gate_indices_def)
  next
    case (Inr p)
    have res: "get_gate_indices R g path =
        (case qs of [None] \<Rightarrow> events_at (raw_results R) g p
          | [Some quad_parent] \<Rightarrow> quad_events_at (raw_results R) quad_parent p g
          | _ \<Rightarrow> Inl ValueError_quadrant_parents)"
      by (simp add: get_gate_indices_def Some Inr qs_def)
    have one: "length qs \<le> 1" if "path = PNone"
    proof -
      from Inr that have "\<not> 1 < length ps"
        by (auto simp: resolve_path_def split: if_splits)
      with le show ?thesis by simp
    qed
    show ?thesis
    proof (cases qs)
      case Nil
      with ne show ?thesis by simp
    next
      case (Cons x xs)
      show ?thesis
      proof (cases xs)
        case Nil
        with Cons res card show ?thesis
          by (cases x) (simp_all add: events_at_error quad_events_at_error)
      next
        case (Cons y ys)
        with \<open>qs = x # xs\<close> one have "path \<noteq> PNone" by auto
        with Cons \<open>qs = x # xs\<close> res card show ?thesis
          by (cases x) simp_all
      qed
    qed
  qed
qed

theorem quadrant_parents_error_witness:
  "one_sample ''s1'' clash_raw
   \<and> 1 < card (quadrant_parent ` set (gate_rows clash_results ''C''))
   \<and> get_gate_indices clash_results ''C'' (PStr ''root/A'') = Inl ValueError_quadrant_parents
   \<and> get_gate_indices clash_results ''C'' PNone \<noteq> Inl ValueError_quadrant_parents
   \<and> get_gate_indices clash_results ''A'' (PStr ''root'') \<noteq> Inl ValueError_quadrant_parents"
proof -
  have "map quadrant_parent (gate_rows clash_results ''C'') = [None, Some ''Q'']"
    unfolding clash_results_def by code_simp
  then have "quadrant_parent ` set (gate_rows clash_results ''C'') = {None, Some ''Q''}"
    by (simp flip: set_map)
  then have c: "1 < card (quadrant_parent ` set (gate_rows clash_results ''C''))" by simp
  have "map quadrant_parent (gate_rows clash_results ''A'') = [None]"
    unfolding clash_results_def by code_simp
  then have "quadrant_parent ` set (gate_rows clash_results ''A'') = {None}"
    by (simp flip: set_map)
  then have a: "\<not> 1 < card (quadrant_parent ` set (gate_rows clash_results ''A''))" by simp
  from c a clash_one_sample
    quadrant_parents_error [OF clash_results clash_one_sample, of "''C''" "PStr ''root/A''"]
    quadrant_parents_error [OF clash_results clash_one_sample, of "''C''" PNone]
    quadrant_parents_error [OF clash_results clash_one_sample, of "''A''" "PStr ''root''"]
  show ?thesis by simp
qed

text \<open>
  With the path left out the claim fails: the rows of \<^verbatim>\<open>C\<close> in \<open>clash_raw\<close> have two
  distinct quadrant parents, and the call raises the error about the ambiguous id, which
  is checked first.
\<close>

theorem quadrant_parents_error_counterexample:
  "map quadrant_parent (gate_rows clash_results ''C'') = [None, Some ''Q'']
   \<and> get_gate_indices clash_results ''C'' PNone = Inl ValueError_ambiguous"
  unfolding clash_results_def by code_simp

subsection \<open>The example of the tree with gate B under gate A\<close>




subsection \<open>The queries leave the object as it is\<close>



subsection \<open>An id that occurs nowhere\<close>

text \<open>
  C10. For a gate id that the lookup table of a constructed object does not hold,
  \<^verbatim>\<open>get_gate_indices\<close> raises \<^verbatim>\<open>KeyError\<close>, whatever the path argument, and
  \<^verbatim>\<open>get_gate_count\<close>, \<^verbatim>\<open>get_gate_absolute_percent\<close> and \<^verbatim>\<open>get_gate_relative_percent\<close> each
  raise \<^verbatim>\<open>IndexError\<close>: none of them raises the \<^verbatim>\<open>ValueError\<close> or the
  \<^verbatim>\<open>NotImplementedError\<close> of this class.
\<close>

theorem unknown_gate_errors:
  assumes "GatingResults raw sid = Inr R" and "gate_lut R g = None"
  shows "get_gate_indices R g path = Inl KeyError
    \<and> get_gate_count R g = Inl IndexError
    \<and> get_gate_absolute_percent R g = Inl IndexError
    \<and> get_gate_relative_percent R g = Inl IndexError"
proof -
  from assms have "occurrences raw g = []" by (simp add: lut_paths(1))
  with assms(1) have rows: "gate_rows R g = []" by (rule gate_rows_unknown)
  have "get_gate_indices R g path = Inl KeyError"
    using assms(2) by (simp add: get_gate_indices_def)
  moreover have "get_gate_count R g = Inl IndexError"
    by (simp add: get_gate_count_def first_value_def rows)
  moreover have "get_gate_absolute_percent R g = Inl IndexError"
    by (simp add: get_gate_absolute_percent_def first_value_def rows)
  moreover have "get_gate_relative_percent R g = Inl IndexError"
    by (simp add: get_gate_relative_percent_def first_value_def rows)
  ultimately show ?thesis by simp
qed

theorem unknown_gate_errors_witness:
  "gate_lut reused_results ''Z'' = None
   \<and> get_gate_indices reused_results ''Z'' (PStr ''root'') = Inl KeyError
   \<and> get_gate_count reused_results ''Z'' = Inl IndexError
   \<and> get_gate_absolute_percent reused_results ''Z'' = Inl IndexError
   \<and> get_gate_relative_percent reused_results ''Z'' = Inl IndexError"
proof -
  have lut: "gate_lut reused_results ''Z'' = None"
    unfolding reused_results_def by code_simp
  from unknown_gate_errors [OF reused_results lut, of "PStr ''root''"] lut show ?thesis by simp
qed

end
